theory Spec2Isabelle
  imports Main
begin

section \<open>Documents\<close>

text \<open>
  A LangChain \<open>Document\<close>: the chunk text and its metadata dictionary. Only string-valued
  metadata is modelled (\<open>'role'\<close>, \<open>'source'\<close> and the header entries are strings).
\<close>

record document =
  page_content :: string
  metadata :: "string \<rightharpoonup> string"

text \<open>A Python dict literal with distinct keys, and \<open>d.get(k, default)\<close>.\<close>

definition dict_get :: "('k \<times> 'v) list \<Rightarrow> 'k \<Rightarrow> 'v \<Rightarrow> 'v" where
  "dict_get d k dflt = (case map_of d k of None \<Rightarrow> dflt | Some v \<Rightarrow> v)"

section \<open>Authentication (backend/app/auth.py)\<close>

definition MOCK_USERS :: "(string \<times> (string \<times> string) list) list" where
  "MOCK_USERS = [
     (''tony_s'', [(''role'', ''c_level''), (''password'', ''password123'')]),
     (''peter_p'', [(''role'', ''engineering''), (''password'', ''password123'')]),
     (''susan_m'', [(''role'', ''marketing''), (''password'', ''password123'')]),
     (''john_f'', [(''role'', ''finance''), (''password'', ''password123'')]),
     (''lisa_h'', [(''role'', ''hr''), (''password'', ''password123'')]),
     (''employee_user'', [(''role'', ''employee''), (''password'', ''password123'')])]"

record UserLogin =
  login_username :: string
  login_password :: string

record User =
  username :: string
  role :: string

record HTTPException =
  status_code :: nat
  detail :: string
  headers :: "(string \<times> string) list"

datatype auth_error = Http HTTPException | KeyError string

definition HTTP_401_UNAUTHORIZED :: nat where
  "HTTP_401_UNAUTHORIZED = 401"

definition unauthorized :: HTTPException where
  "unauthorized =
     \<lparr>status_code = HTTP_401_UNAUTHORIZED,
      detail = ''Incorrect username or password'',
      headers = [(''WWW-Authenticate'', ''Bearer'')]\<rparr>"

text \<open>
  \<open>get_current_user\<close> reads the global user table; the table is passed in and handed back,
  so that what the call does to it is part of the result. \<open>not user_in_db\<close> holds for
  \<open>None\<close> and for an empty dict; \<open>user_in_db.get("password")\<close> is \<open>None\<close> when the key is
  missing, which differs from every string; \<open>user_in_db["role"]\<close> raises \<open>KeyError\<close> when
  the key is missing.
\<close>

definition get_current_user ::
  "(string \<times> (string \<times> string) list) list \<Rightarrow> UserLogin
     \<Rightarrow> (auth_error + User) \<times> (string \<times> (string \<times> string) list) list" where
  "get_current_user users form_data =
     (case map_of users (login_username form_data) of
        None \<Rightarrow> (Inl (Http unauthorized), users)
      | Some user_in_db \<Rightarrow>
          if user_in_db = [] \<or> map_of user_in_db ''password'' \<noteq> Some (login_password form_data)
          then (Inl (Http unauthorized), users)
          else (case map_of user_in_db ''role'' of
                  None \<Rightarrow> (Inl (KeyError ''role''), users)
                | Some r \<Rightarrow> (Inr \<lparr>username = login_username form_data, role = r\<rparr>, users)))"

section \<open>Access policy and query pipeline (backend/app/rag_pipeline.py)\<close>

definition ROLE_ACCESS_MAPPING :: "(string \<times> string list) list" where
  "ROLE_ACCESS_MAPPING = [
     (''c_level'', [''c_level'', ''engineering'', ''marketing'', ''finance'', ''hr'', ''general'']),
     (''engineering'', [''engineering'', ''general'']),
     (''marketing'', [''marketing'', ''general'']),
     (''finance'', [''finance'', ''general'']),
     (''hr'', [''hr'', ''general'']),
     (''employee'', [''general''])]"

text \<open>The content roles the policy knows: every role named in some accessible list.\<close>

definition content_roles :: "string set" where
  "content_roles = (\<Union>(k, rs) \<in> set ROLE_ACCESS_MAPPING. set rs)"

text \<open>The metadata filter \<open>{key: {"$in": values}}\<close> handed to the vector store.\<close>

datatype where_filter = In string "string list"

fun matches :: "where_filter \<Rightarrow> document \<Rightarrow> bool" where
  "matches (In key vals) d =
     (case metadata d key of None \<Rightarrow> False | Some v \<Rightarrow> v \<in> set vals)"

text \<open>
  The opened vector store: the persisted chunks of the collection, in insertion order, and
  the similarity of a query text to a stored chunk (the embedding model and the distance are
  external; the score is any linearly ordered value).
\<close>

record 's chroma =
  collection :: "document list"
  similarity :: "string \<Rightarrow> document \<Rightarrow> 's"

fun insert_ranked :: "('a \<Rightarrow> 's::linorder) \<Rightarrow> 'a \<Rightarrow> 'a list \<Rightarrow> 'a list" where
  "insert_ranked f x [] = [x]"
| "insert_ranked f x (y # ys) =
     (if f x < f y then y # insert_ranked f x ys else x # y # ys)"

definition rank_desc :: "('a \<Rightarrow> 's::linorder) \<Rightarrow> 'a list \<Rightarrow> 'a list" where
  "rank_desc f xs = foldr (insert_ranked f) xs []"

text \<open>
  Modelled from the spec: the vector store's \<open>search\<close> (the Chroma library behind
  \<open>as_retriever\<close> is not among the sources). It returns up to \<open>k\<close> nearest neighbours by
  similarity among the records whose metadata satisfies the filter; the filter is a hard
  constraint of the search, not a step after an unfiltered top-k; results are ranked by
  descending score, ties in a fixed order (here: the stored order).
\<close>

definition similarity_search ::
  "('s::linorder) chroma \<Rightarrow> string \<Rightarrow> nat \<Rightarrow> where_filter \<Rightarrow> document list" where
  "similarity_search client query k flt =
     take k (rank_desc (similarity client query) (filter (matches flt) (collection client)))"

definition nl :: string where
  "nl = [CHR 0x0A]"

text \<open>The prompt template, with \<open>{context}\<close> and \<open>{question}\<close> filled in.\<close>

definition prompt :: "string \<Rightarrow> string \<Rightarrow> string" where
  "prompt context question =
     nl @ ''You are a helpful assistant for FinSolve Technologies.'' @ nl @
     ''Answer the question based only on the following context.'' @ nl @
     ''If you don't know the answer, just say that you don't know.'' @ nl @
     nl @
     ''Context:'' @ nl @
     context @ nl @
     nl @
     ''Question:'' @ nl @
     question @ nl"

datatype provider_error = ProviderError string

text \<open>
  What a call of \<open>get_rag_response\<close> does besides returning: the vector searches it runs
  (query, k, filter, and the chunks that came back) and the prompts it sends to the model.
\<close>

datatype event =
  VectorSearch string nat where_filter "document list"
| LLMCall string

definition access_denied :: string where
  "access_denied = ''Your role does not have access to any data.''"

text \<open>
  \<open>get_rag_response\<close>. The chain binds \<open>context\<close> to the retriever's result and \<open>question\<close>
  to the query, renders the template, calls the model once and parses its output to a
  string. \<open>render\<close> is how the template prints the list of retrieved documents; \<open>llm\<close> is
  the model call followed by \<open>StrOutputParser\<close>, which may fail with a provider error.
\<close>

definition get_rag_response ::
  "('s::linorder) chroma \<Rightarrow> (document list \<Rightarrow> string) \<Rightarrow> (string \<Rightarrow> provider_error + string)
     \<Rightarrow> string \<Rightarrow> string \<Rightarrow> (provider_error + string) \<times> event list" where
  "get_rag_response chroma_client render llm query user_role =
     (let accessible_roles = dict_get ROLE_ACCESS_MAPPING user_role [] in
      if accessible_roles = [] then (Inr access_denied, [])
      else
        let flt = In ''role'' accessible_roles;
            context = similarity_search chroma_client query 5 flt;
            p = prompt (render context) query
        in (llm p, [VectorSearch query 5 flt context, LLMCall p]))"

section \<open>Ingestion (backend/app/data_loader.py)\<close>

text \<open>
  A path is its list of components; \<open>pathlib.Path(p).name\<close> is the last one (the empty
  string when there is none), \<open>os.path.join(dirpath, filename)\<close> appends one.
\<close>

type_synonym path = "string list"

definition path_name :: "path \<Rightarrow> string" where
  "path_name p = (if p = [] then [] else last p)"

definition endswith :: "string \<Rightarrow> string \<Rightarrow> bool" where
  "endswith s suf = (length suf \<le> length s \<and> drop (length s - length suf) s = suf)"

text \<open>A directory: the names of its files and its named subdirectories, in listing order.\<close>

datatype fs_dir = Directory (dir_files: "string list") (dir_subdirs: "(string \<times> fs_dir) list")

text \<open>
  \<open>os.walk(top)\<close>, top-down: the triple \<open>(dirpath, dirnames, filenames)\<close> of a directory,
  then the walks of its subdirectories in order.
\<close>

fun os_walk :: "path \<Rightarrow> fs_dir \<Rightarrow> (path \<times> string list \<times> string list) list" where
  "os_walk dirpath (Directory filenames subdirs) =
     (dirpath, map fst subdirs, filenames) #
     concat (map (\<lambda>(n, d). os_walk (dirpath @ [n]) d) subdirs)"

datatype loader_error = LoaderError string

text \<open>
  The external parsers, each of which may raise: reading a file as UTF-8 text, the markdown
  header splitter, and the PDF and CSV loaders (construction and \<open>load()\<close>).
\<close>

record loaders =
  read_text :: "path \<Rightarrow> loader_error + string"
  markdown_split :: "(string \<times> string) list \<Rightarrow> string \<Rightarrow> document list"
  pdf_load :: "path \<Rightarrow> loader_error + document list"
  csv_load :: "path \<Rightarrow> loader_error + document list"

text \<open>The lines printed by the ingestion script.\<close>

datatype log_line =
  Starting
| RemovingExisting path
| LoadedAndProcessed string string
| NoDocumentsAborting
| SplitInto nat
| InitializingEmbedding string
| ConnectingAndUploading
| Rule
| IngestionComplete
| TotalChunks nat
| CollectionReady string path

text \<open>
  The value of \<open>docs\<close> after the format dispatch of one file: \<open>None\<close> when no loader
  applies, otherwise what the parser returned; an exception of the parser is not caught.
\<close>

definition load_docs :: "loaders \<Rightarrow> path \<Rightarrow> string \<Rightarrow> loader_error + document list option" where
  "load_docs L dirpath filename =
     (let file_path = dirpath @ [filename] in
      if endswith filename ''.md'' then
        (case read_text L file_path of
           Inl e \<Rightarrow> Inl e
         | Inr markdown_content \<Rightarrow>
             let headers_to_split_on =
                   [(''#'', ''Header 1''), (''##'', ''Header 2''), (''###'', ''Header 3'')];
                 docs = markdown_split L headers_to_split_on markdown_content
             in Inr (Some (map (\<lambda>doc. doc\<lparr>metadata := (metadata doc)(''source'' \<mapsto> filename)\<rparr>) docs)))
      else if endswith filename ''.pdf'' then
        (case pdf_load L file_path of Inl e \<Rightarrow> Inl e | Inr docs \<Rightarrow> Inr (Some docs))
      else if endswith filename ''.csv'' then
        (case csv_load L file_path of Inl e \<Rightarrow> Inl e | Inr docs \<Rightarrow> Inr (Some docs))
      else Inr None)"

text \<open>
  The body of the inner loop, on the accumulated documents and printed lines: the format
  dispatch, then, when \<open>docs\<close> is neither \<open>None\<close> nor empty, every document gets \<open>'role'\<close>
  set to the name of the directory being walked, the documents are appended to
  \<open>all_docs\<close> and a line is printed.
\<close>

definition process_file ::
  "loaders \<Rightarrow> path \<Rightarrow> string \<Rightarrow> document list \<times> log_line list
     \<Rightarrow> loader_error + document list \<times> log_line list" where
  "process_file L dirpath filename acc =
     (case load_docs L dirpath filename of
        Inl e \<Rightarrow> Inl e
      | Inr None \<Rightarrow> Inr acc
      | Inr (Some docs) \<Rightarrow>
          if docs = [] then Inr acc
          else
            let role = path_name dirpath;
                docs' = map (\<lambda>doc. doc\<lparr>metadata := (metadata doc)(''role'' \<mapsto> role)\<rparr>) docs
            in Inr (fst acc @ docs', snd acc @ [LoadedAndProcessed filename role]))"

fun for_filenames ::
  "loaders \<Rightarrow> path \<Rightarrow> string list \<Rightarrow> document list \<times> log_line list
     \<Rightarrow> loader_error + document list \<times> log_line list" where
  "for_filenames L dirpath [] acc = Inr acc"
| "for_filenames L dirpath (filename # rest) acc =
     (case process_file L dirpath filename acc of
        Inl e \<Rightarrow> Inl e
      | Inr acc' \<Rightarrow> for_filenames L dirpath rest acc')"

fun for_walk ::
  "loaders \<Rightarrow> (path \<times> string list \<times> string list) list \<Rightarrow> document list \<times> log_line list
     \<Rightarrow> loader_error + document list \<times> log_line list" where
  "for_walk L [] acc = Inr acc"
| "for_walk L ((dirpath, dirnames, filenames) # rest) acc =
     (case for_filenames L dirpath filenames acc of
        Inl e \<Rightarrow> Inl e
      | Inr acc' \<Rightarrow> for_walk L rest acc')"

text \<open>
  \<open>get_documents_from_path\<close>: the documents of every file under the root, or the first
  exception a parser raised. A root that does not exist is walked as nothing.
\<close>

definition get_documents_from_path ::
  "loaders \<Rightarrow> path \<Rightarrow> fs_dir option \<Rightarrow> loader_error + document list \<times> log_line list" where
  "get_documents_from_path L data_path root =
     for_walk L (case root of None \<Rightarrow> [] | Some d \<Rightarrow> os_walk data_path d) ([], [])"

text \<open>The files a walk visits, each with the directory it is listed in, in visiting order.\<close>

definition flatten_walk :: "(path \<times> string list \<times> string list) list \<Rightarrow> (path \<times> string) list" where
  "flatten_walk entries =
     concat (map (\<lambda>(dirpath, dirnames, filenames). map (Pair dirpath) filenames) entries)"

definition walk_files :: "path \<Rightarrow> fs_dir option \<Rightarrow> (path \<times> string) list" where
  "walk_files data_path root =
     flatten_walk (case root of None \<Rightarrow> [] | Some d \<Rightarrow> os_walk data_path d)"

text \<open>
  Modelled from the spec: the chunker (\<open>RecursiveCharacterTextSplitter.split_documents\<close> is
  library code, not among the sources). Each unit's text is cut into windows by
  \<open>split_text\<close> (size and overlap are configuration constants), and every output chunk
  inherits the metadata of its parent unit unmodified.
\<close>

definition split_documents ::
  "(nat \<Rightarrow> nat \<Rightarrow> string \<Rightarrow> string list) \<Rightarrow> nat \<Rightarrow> nat \<Rightarrow> document list \<Rightarrow> document list" where
  "split_documents split_text chunk_size chunk_overlap documents =
     concat (map (\<lambda>d. map (\<lambda>t. \<lparr>page_content = t, metadata = metadata d\<rparr>)
                           (split_text chunk_size chunk_overlap (page_content d)))
                 documents)"

text \<open>
  The part of the machine the script touches: the data directory (read only) and the
  persist directory of the vector store (\<open>None\<close> when it does not exist, otherwise its
  collections by name).
\<close>

record system_state =
  data_dir :: "fs_dir option"
  chroma_dir :: "(string \<rightharpoonup> document list) option"

definition DATA_PATH :: "path \<Rightarrow> path" where
  "DATA_PATH project_root = project_root @ [''data'']"

definition CHROMA_PERSIST_DIRECTORY :: "path \<Rightarrow> path" where
  "CHROMA_PERSIST_DIRECTORY project_root = project_root @ [''chroma_db'']"

definition EMBEDDING_MODEL_NAME :: string where
  "EMBEDDING_MODEL_NAME = ''all-MiniLM-L6-v2''"

definition CHROMA_COLLECTION_NAME :: string where
  "CHROMA_COLLECTION_NAME = ''finsolve_chatbot''"

text \<open>
  The lines the walk has printed when it stops, at its end or at the first exception of a
  parser: the loop body, run over the visited files for its printed lines only.
\<close>

fun printed_until_raise :: "loaders \<Rightarrow> (path \<times> string) list \<Rightarrow> log_line list \<Rightarrow> log_line list" where
  "printed_until_raise L [] out = out"
| "printed_until_raise L ((dirpath, filename) # rest) out =
     (case process_file L dirpath filename ([], out) of
        Inl e \<Rightarrow> out
      | Inr acc' \<Rightarrow> printed_until_raise L rest (snd acc'))"

text \<open>
  What ends \<open>ingest_data\<close> early: an exception of a parser, which the script does not
  catch, or the \<open>ValueError\<close> of the vector store when it is handed no chunks at all.
\<close>

datatype ingest_error = ParserRaised loader_error | ValueError

text \<open>
  \<open>ingest_data\<close>: the result (an uncaught exception, or a normal return), the state it
  leaves and the lines it printed. After a parser exception the persist directory is
  already removed and the lines of the files loaded so far are printed. When the documents
  split into no chunks, the collection is created and the upload of the empty list raises
  before the closing lines are printed. Loading the embedding model and writing a non-empty
  list of chunks are taken to succeed.
\<close>

definition ingest_data ::
  "loaders \<Rightarrow> (nat \<Rightarrow> nat \<Rightarrow> string \<Rightarrow> string list) \<Rightarrow> path \<Rightarrow> system_state
     \<Rightarrow> (ingest_error + unit) \<times> system_state \<times> log_line list" where
  "ingest_data L split_text project_root s =
     (let out0 = [Starting];
          (s1, out1) =
            (if chroma_dir s \<noteq> None
             then (s\<lparr>chroma_dir := None\<rparr>,
                   out0 @ [RemovingExisting (CHROMA_PERSIST_DIRECTORY project_root)])
             else (s, out0))
      in case get_documents_from_path L (DATA_PATH project_root) (data_dir s1) of
           Inl e \<Rightarrow>
             (Inl (ParserRaised e), s1,
              out1 @ printed_until_raise L (walk_files (DATA_PATH project_root) (data_dir s1)) [])
         | Inr (documents, printed) \<Rightarrow>
             if documents = [] then (Inr (), s1, out1 @ printed @ [NoDocumentsAborting])
             else
               let chunked_docs = split_documents split_text 1000 100 documents;
                   out2 = out1 @ printed @
                          [SplitInto (length chunked_docs),
                           InitializingEmbedding EMBEDDING_MODEL_NAME,
                           ConnectingAndUploading];
                   s2 = s1\<lparr>chroma_dir := Some [CHROMA_COLLECTION_NAME \<mapsto> chunked_docs]\<rparr>
               in if chunked_docs = [] then (Inl ValueError, s2, out2)
                  else
                    (Inr (), s2,
                     out2 @ [Rule, IngestionComplete, TotalChunks (length chunked_docs),
                             CollectionReady CHROMA_COLLECTION_NAME
                               (CHROMA_PERSIST_DIRECTORY project_root),
                             Rule]))"

subsection \<open>Notions used to state the properties\<close>

text \<open>
  The units of one file: what the walk appends to \<open>all_docs\<close> for it, or the exception
  its parser raises.
\<close>

definition file_units :: "loaders \<Rightarrow> path \<Rightarrow> string \<Rightarrow> loader_error + document list" where
  "file_units L dirpath filename =
     (case load_docs L dirpath filename of
        Inl e \<Rightarrow> Inl e
      | Inr None \<Rightarrow> Inr []
      | Inr (Some docs) \<Rightarrow>
          Inr (map (\<lambda>doc. doc\<lparr>metadata := (metadata doc)(''role'' \<mapsto> path_name dirpath)\<rparr>) docs))"

text \<open>
  The two nested loops of \<open>get_documents_from_path\<close> read as one loop over the visited
  files.
\<close>

fun for_files ::
  "loaders \<Rightarrow> (path \<times> string) list \<Rightarrow> document list \<times> log_line list
     \<Rightarrow> loader_error + document list \<times> log_line list" where
  "for_files L [] acc = Inr acc"
| "for_files L ((dirpath, filename) # rest) acc =
     (case process_file L dirpath filename acc of
        Inl e \<Rightarrow> Inl e
      | Inr acc' \<Rightarrow> for_files L rest acc')"

text \<open>\<open>dir_at t rel d\<close>: following the names \<open>rel\<close> down from directory \<open>t\<close> leads to \<open>d\<close>.\<close>

fun dir_at :: "fs_dir \<Rightarrow> path \<Rightarrow> fs_dir \<Rightarrow> bool" where
  "dir_at t [] d = (t = d)"
| "dir_at (Directory filenames subdirs) (n # rest) d =
     (\<exists>(m, sub) \<in> set subdirs. m = n \<and> dir_at sub rest d)"

section \<open>Sample inputs\<close>

text \<open>
  A three-chunk index in which the finance chunk scores highest for every query (the score
  is the length of the chunk text), used to run the query pipeline on concrete inputs.
\<close>

definition finance_chunk :: document where
  "finance_chunk = \<lparr>page_content = ''Q3 marketing spend was $500,000'',
                    metadata = [''role'' \<mapsto> ''finance'', ''source'' \<mapsto> ''q3.md'']\<rparr>"

definition hr_chunk :: document where
  "hr_chunk = \<lparr>page_content = ''Leave policy'',
               metadata = [''role'' \<mapsto> ''hr'', ''source'' \<mapsto> ''leave.md'']\<rparr>"

definition general_chunk :: document where
  "general_chunk = \<lparr>page_content = ''Office hours'',
                    metadata = [''role'' \<mapsto> ''general'', ''source'' \<mapsto> ''handbook.md'']\<rparr>"

definition demo_store :: "nat chroma" where
  "demo_store = \<lparr>collection = [finance_chunk, hr_chunk, general_chunk],
                 similarity = (\<lambda>q d. length (page_content d))\<rparr>"

text \<open>
  Sample parsers (reading \<open>data/hr/bad.md\<close> raises, every other read succeeds), a
  sample window splitter, and sample data directories: one nested, one flat, one holding
  the unreadable file, and a machine state with an index and an empty data directory.
\<close>

definition demo_loaders :: loaders where
  "demo_loaders =
     \<lparr>read_text = (\<lambda>p. if p = [''data'', ''hr'', ''bad.md'']
                        then Inl (LoaderError ''invalid utf-8'') else Inr ''# Policy''),
      markdown_split = (\<lambda>hs s. [\<lparr>page_content = s, metadata = Map.empty\<rparr>]),
      pdf_load = (\<lambda>p. Inr []),
      csv_load = (\<lambda>p. Inr [\<lparr>page_content = ''row'', metadata = Map.empty\<rparr>])\<rparr>"

definition demo_split :: "nat \<Rightarrow> nat \<Rightarrow> string \<Rightarrow> string list" where
  "demo_split chunk_size chunk_overlap s =
     (if length s \<le> chunk_size then [s] else [take chunk_size s, drop (chunk_size - chunk_overlap) s])"

definition nested_tree :: fs_dir where
  "nested_tree = Directory [] [(''finance'', Directory [] [(''reports'', Directory [''q3.csv''] [])])]"

definition flat_tree :: fs_dir where
  "flat_tree = Directory [] [(''hr'', Directory [''leave.md'', ''notes.txt''] []),
                             (''general'', Directory [''faq.csv''] [])]"

definition bad_tree :: fs_dir where
  "bad_tree = Directory [] [(''hr'', Directory [''bad.md'', ''good.csv''] [])]"

definition reports_unit :: document where
  "reports_unit = \<lparr>page_content = ''row'', metadata = [''role'' \<mapsto> ''reports'']\<rparr>"

definition good_unit :: document where
  "good_unit = \<lparr>page_content = ''row'', metadata = [''role'' \<mapsto> ''hr'']\<rparr>"

definition leave_unit :: document where
  "leave_unit = \<lparr>page_content = ''# Policy'', metadata = [''source'' \<mapsto> ''leave.md'', ''role'' \<mapsto> ''hr'']\<rparr>"

definition faq_unit :: document where
  "faq_unit = \<lparr>page_content = ''row'', metadata = [''role'' \<mapsto> ''general'']\<rparr>"

definition indexed_state :: system_state where
  "indexed_state = \<lparr>data_dir = Some (Directory [] []),
                     chroma_dir = Some [CHROMA_COLLECTION_NAME \<mapsto> [general_chunk]]\<rparr>"

section \<open>Access policy\<close>

lemma keys_cases:
  "caller \<in> fst ` set ROLE_ACCESS_MAPPING \<longleftrightarrow>
   caller \<in> {''c_level'', ''engineering'', ''marketing'', ''finance'', ''hr'', ''employee''}"
  by (simp add: ROLE_ACCESS_MAPPING_def)

lemma accessible_known:
  "dict_get ROLE_ACCESS_MAPPING ''c_level'' [] = [''c_level'', ''engineering'', ''marketing'', ''finance'', ''hr'', ''general'']"
  "dict_get ROLE_ACCESS_MAPPING ''engineering'' [] = [''engineering'', ''general'']"
  "dict_get ROLE_ACCESS_MAPPING ''marketing'' [] = [''marketing'', ''general'']"
  "dict_get ROLE_ACCESS_MAPPING ''finance'' [] = [''finance'', ''general'']"
  "dict_get ROLE_ACCESS_MAPPING ''hr'' [] = [''hr'', ''general'']"
  "dict_get ROLE_ACCESS_MAPPING ''employee'' [] = [''general'']"
  by (simp_all add: ROLE_ACCESS_MAPPING_def dict_get_def)

lemma accessible_unknown:
  "caller \<notin> fst ` set ROLE_ACCESS_MAPPING \<Longrightarrow> dict_get ROLE_ACCESS_MAPPING caller [] = []"
  by (simp add: dict_get_def map_of_eq_None_iff [THEN iffD2])

lemma content_roles_eq:
  "content_roles = {''c_level'', ''engineering'', ''marketing'', ''finance'', ''hr'', ''general''}"
  by (auto simp: content_roles_def ROLE_ACCESS_MAPPING_def)

text \<open>
  C7 (access-policy invariant). For every caller role that is a key of
  \<open>ROLE_ACCESS_MAPPING\<close>, the accessible list contains \<open>general\<close>, and contains the
  caller role itself whenever that name is a content role; for every caller role that is
  not a key, the resolved accessible list is empty.
\<close>

theorem access_policy_invariant:
  "(caller \<in> fst ` set ROLE_ACCESS_MAPPING \<longrightarrow>
      ''general'' \<in> set (dict_get ROLE_ACCESS_MAPPING caller []) \<and>
      (caller \<in> content_roles \<longrightarrow> caller \<in> set (dict_get ROLE_ACCESS_MAPPING caller []))) \<and>
   (caller \<notin> fst ` set ROLE_ACCESS_MAPPING \<longrightarrow> dict_get ROLE_ACCESS_MAPPING caller [] = [])"
proof (intro conjI impI)
  assume k: "caller \<in> fst ` set ROLE_ACCESS_MAPPING"
  then show "''general'' \<in> set (dict_get ROLE_ACCESS_MAPPING caller [])"
    unfolding keys_cases by (auto simp: accessible_known)
next
  assume k: "caller \<in> fst ` set ROLE_ACCESS_MAPPING" and c: "caller \<in> content_roles"
  from k c show "caller \<in> set (dict_get ROLE_ACCESS_MAPPING caller [])"
    unfolding keys_cases content_roles_eq by (auto simp: accessible_known)
next
  assume "caller \<notin> fst ` set ROLE_ACCESS_MAPPING"
  then show "dict_get ROLE_ACCESS_MAPPING caller [] = []" by (rule accessible_unknown)
qed

text \<open>
  C7 at \<open>hr\<close> (a key and a content role), \<open>employee\<close> (a key, not a content role)
  and \<open>intern\<close> (not a key).
\<close>

theorem access_policy_invariant_witness:
  "''hr'' \<in> fst ` set ROLE_ACCESS_MAPPING \<and> ''hr'' \<in> content_roles \<and>
   ''general'' \<in> set (dict_get ROLE_ACCESS_MAPPING ''hr'' []) \<and>
   ''hr'' \<in> set (dict_get ROLE_ACCESS_MAPPING ''hr'' []) \<and>
   ''employee'' \<in> fst ` set ROLE_ACCESS_MAPPING \<and> ''employee'' \<notin> content_roles \<and>
   ''general'' \<in> set (dict_get ROLE_ACCESS_MAPPING ''employee'' []) \<and>
   ''intern'' \<notin> fst ` set ROLE_ACCESS_MAPPING \<and>
   dict_get ROLE_ACCESS_MAPPING ''intern'' [] = []"
proof -
  have a: "''hr'' \<in> fst ` set ROLE_ACCESS_MAPPING" "''employee'' \<in> fst ` set ROLE_ACCESS_MAPPING"
    "''intern'' \<notin> fst ` set ROLE_ACCESS_MAPPING"
    by (simp_all add: ROLE_ACCESS_MAPPING_def)
  have b: "''hr'' \<in> content_roles" "''employee'' \<notin> content_roles"
    by (simp_all add: content_roles_def ROLE_ACCESS_MAPPING_def)
  show ?thesis
    using a b access_policy_invariant [of "''hr''"] access_policy_invariant [of "''employee''"]
      access_policy_invariant [of "''intern''"]
    by blast
qed

section \<open>Retrieval\<close>

lemma set_insert_ranked: "set (insert_ranked f x xs) = insert x (set xs)"
  by (induction xs) auto

lemma set_rank_desc: "set (rank_desc f xs) = set xs"
  by (induction xs) (simp_all add: rank_desc_def set_insert_ranked)

lemma similarity_search_filtered:
  "d \<in> set (similarity_search client query k flt) \<Longrightarrow> d \<in> set (collection client) \<and> matches flt d"
  by (auto simp: similarity_search_def set_rank_desc dest: in_set_takeD)

lemma matches_In_role:
  "matches (In key vals) d \<Longrightarrow> \<exists>r. metadata d key = Some r \<and> r \<in> set vals"
  by (simp split: option.splits)

text \<open>
  C1 (zero leakage). For every index, every scoring, every query and every caller role, a
  call of \<open>get_rag_response\<close> either runs no search at all, or runs exactly one search,
  with the filter \<open>role in accessible_roles\<close>, and builds the prompt from its result; every
  chunk of that result is a stored chunk whose \<open>role\<close> metadata is present and lies in the
  accessible list resolved for the caller role.
\<close>

theorem zero_leakage:
  "snd (get_rag_response chroma_client render llm query user_role) = [] \<or>
   (\<exists>context.
      snd (get_rag_response chroma_client render llm query user_role) =
        [VectorSearch query 5 (In ''role'' (dict_get ROLE_ACCESS_MAPPING user_role [])) context,
         LLMCall (prompt (render context) query)] \<and>
      (\<forall>d \<in> set context.
         d \<in> set (collection chroma_client) \<and>
         (\<exists>r. metadata d ''role'' = Some r \<and> r \<in> set (dict_get ROLE_ACCESS_MAPPING user_role []))))"
proof (cases "dict_get ROLE_ACCESS_MAPPING user_role [] = []")
  case True
  then show ?thesis by (simp add: get_rag_response_def)
next
  case False
  let ?acc = "dict_get ROLE_ACCESS_MAPPING user_role []"
  let ?ctx = "similarity_search chroma_client query 5 (In ''role'' ?acc)"
  have ev: "snd (get_rag_response chroma_client render llm query user_role) =
        [VectorSearch query 5 (In ''role'' ?acc) ?ctx, LLMCall (prompt (render ?ctx) query)]"
    using False by (simp add: get_rag_response_def Let_def)
  have "\<forall>d \<in> set ?ctx. d \<in> set (collection chroma_client) \<and>
          (\<exists>r. metadata d ''role'' = Some r \<and> r \<in> set ?acc)"
    using similarity_search_filtered matches_In_role by blast
  with ev show ?thesis by blast
qed

text \<open>
  C1 on the sample index: the finance chunk is the nearest neighbour in the whole
  collection, and the context retrieved for an \<open>hr\<close> caller is the hr and the general
  chunk.
\<close>

theorem zero_leakage_witness:
  "hd (rank_desc (similarity demo_store ''What was the marketing spend?'') (collection demo_store)) = finance_chunk \<and>
   (\<exists>context.
      snd (get_rag_response demo_store (\<lambda>ds. concat (map page_content ds)) (\<lambda>p. Inr ''I don't know.'')
             ''What was the marketing spend?'' ''hr'') =
        [VectorSearch ''What was the marketing spend?'' 5 (In ''role'' [''hr'', ''general'']) context,
         LLMCall (prompt (concat (map page_content context)) ''What was the marketing spend?'')] \<and>
      context = [hr_chunk, general_chunk] \<and>
      (\<forall>d \<in> set context. \<exists>r. metadata d ''role'' = Some r \<and> r \<in> {''hr'', ''general''}))"
proof -
  have acc: "dict_get ROLE_ACCESS_MAPPING ''hr'' [] = [''hr'', ''general'']"
    by (simp add: ROLE_ACCESS_MAPPING_def dict_get_def)
  have top: "hd (rank_desc (similarity demo_store ''What was the marketing spend?'') (collection demo_store)) = finance_chunk"
    by (simp add: demo_store_def rank_desc_def finance_chunk_def hr_chunk_def general_chunk_def)
  have ne: "snd (get_rag_response demo_store (\<lambda>ds. concat (map page_content ds)) (\<lambda>p. Inr ''I don't know.'')
             ''What was the marketing spend?'' ''hr'') \<noteq> []"
    by (simp add: get_rag_response_def acc Let_def)
  have ctx: "similarity_search demo_store ''What was the marketing spend?'' 5 (In ''role'' [''hr'', ''general''])
      = [hr_chunk, general_chunk]"
    by (simp add: similarity_search_def demo_store_def rank_desc_def finance_chunk_def hr_chunk_def general_chunk_def)
  have run: "snd (get_rag_response demo_store (\<lambda>ds. concat (map page_content ds)) (\<lambda>p. Inr ''I don't know.'')
             ''What was the marketing spend?'' ''hr'') =
        [VectorSearch ''What was the marketing spend?'' 5 (In ''role'' [''hr'', ''general'']) [hr_chunk, general_chunk],
         LLMCall (prompt (concat (map page_content [hr_chunk, general_chunk])) ''What was the marketing spend?'')]"
    by (simp add: get_rag_response_def acc Let_def ctx)
  from zero_leakage [of demo_store "\<lambda>ds. concat (map page_content ds)" "\<lambda>p. Inr ''I don't know.''"
      "''What was the marketing spend?''" "''hr''"] ne
  obtain ctx where
    c: "snd (get_rag_response demo_store (\<lambda>ds. concat (map page_content ds)) (\<lambda>p. Inr ''I don't know.'')
             ''What was the marketing spend?'' ''hr'') =
        [VectorSearch ''What was the marketing spend?'' 5 (In ''role'' [''hr'', ''general'']) ctx,
         LLMCall (prompt (concat (map page_content ctx)) ''What was the marketing spend?'')]"
    and r: "\<forall>d \<in> set ctx. \<exists>r. metadata d ''role'' = Some r \<and> r \<in> set [''hr'', ''general'']"
    unfolding acc by blast
  from c run have "ctx = [hr_chunk, general_chunk]" by simp
  with c r top show ?thesis by auto
qed

text \<open>
  C2 (fail closed on an unknown role). If the caller role is not a key of
  \<open>ROLE_ACCESS_MAPPING\<close>, the accessible list is empty and \<open>get_rag_response\<close> returns
  the fixed denial answer having run no vector search and no model call; and whatever the
  caller role, a search that is run never carries an empty list of allowed roles.
\<close>

theorem fail_closed_unknown_role:
  "(user_role \<notin> fst ` set ROLE_ACCESS_MAPPING \<longrightarrow>
      dict_get ROLE_ACCESS_MAPPING user_role [] = [] \<and>
      get_rag_response chroma_client render llm query user_role
        = (Inr ''Your role does not have access to any data.'', [])) \<and>
   (\<forall>q k key vals res.
      VectorSearch q k (In key vals) res
        \<in> set (snd (get_rag_response chroma_client render llm query user_role)) \<longrightarrow> vals \<noteq> [])"
proof (intro conjI impI allI)
  assume u: "user_role \<notin> fst ` set ROLE_ACCESS_MAPPING"
  then show e: "dict_get ROLE_ACCESS_MAPPING user_role [] = []" by (rule accessible_unknown)
  then show "get_rag_response chroma_client render llm query user_role
     = (Inr ''Your role does not have access to any data.'', [])"
    by (simp add: get_rag_response_def access_denied_def)
next
  fix q k key vals res
  assume "VectorSearch q k (In key vals) res
        \<in> set (snd (get_rag_response chroma_client render llm query user_role))"
  then show "vals \<noteq> []"
    by (cases "dict_get ROLE_ACCESS_MAPPING user_role [] = []")
       (auto simp: get_rag_response_def Let_def)
qed

text \<open>
  C2 at the unknown role \<open>intern\<close>, and the filter of the search run for \<open>hr\<close>.
\<close>

theorem fail_closed_unknown_role_witness:
  "''intern'' \<notin> fst ` set ROLE_ACCESS_MAPPING \<and>
   get_rag_response demo_store (\<lambda>ds. concat (map page_content ds)) (\<lambda>p. Inr ''hello'')
      ''What was the marketing spend?'' ''intern''
     = (Inr ''Your role does not have access to any data.'', []) \<and>
   VectorSearch ''leave?'' 5 (In ''role'' [''hr'', ''general'']) [hr_chunk, general_chunk]
     \<in> set (snd (get_rag_response demo_store (\<lambda>ds. concat (map page_content ds)) (\<lambda>p. Inr ''hello'') ''leave?'' ''hr'')) \<and>
   [''hr'', ''general''] \<noteq> []"
proof -
  have k: "''intern'' \<notin> fst ` set ROLE_ACCESS_MAPPING"
    by (simp add: ROLE_ACCESS_MAPPING_def)
  have acc: "dict_get ROLE_ACCESS_MAPPING ''hr'' [] = [''hr'', ''general'']"
    by (simp add: ROLE_ACCESS_MAPPING_def dict_get_def)
  have ctx: "similarity_search demo_store ''leave?'' 5 (In ''role'' [''hr'', ''general''])
      = [hr_chunk, general_chunk]"
    by (simp add: similarity_search_def demo_store_def rank_desc_def finance_chunk_def hr_chunk_def general_chunk_def)
  have m: "VectorSearch ''leave?'' 5 (In ''role'' [''hr'', ''general'']) [hr_chunk, general_chunk]
     \<in> set (snd (get_rag_response demo_store (\<lambda>ds. concat (map page_content ds)) (\<lambda>p. Inr ''hello'') ''leave?'' ''hr''))"
    by (simp add: get_rag_response_def acc Let_def ctx)
  from fail_closed_unknown_role [of "''intern''" demo_store "\<lambda>ds. concat (map page_content ds)" "\<lambda>p. Inr ''hello''"
      "''What was the marketing spend?''"] k
  have d: "get_rag_response demo_store (\<lambda>ds. concat (map page_content ds)) (\<lambda>p. Inr ''hello'')
      ''What was the marketing spend?'' ''intern''
     = (Inr ''Your role does not have access to any data.'', [])" by blast
  from fail_closed_unknown_role [of "''hr''" demo_store "\<lambda>ds. concat (map page_content ds)" "\<lambda>p. Inr ''hello''"
      "''leave?''"] m
  have "[''hr'', ''general''] \<noteq> ([]::string list)" by blast
  with k d m show ?thesis by blast
qed

section \<open>Authentication\<close>

lemma mock_user_cases:
  "map_of MOCK_USERS u = Some entry \<Longrightarrow>
   entry \<noteq> [] \<and> map_of entry ''password'' = Some ''password123'' \<and>
   (\<exists>r. map_of entry ''role'' = Some r \<and>
        r \<in> {''c_level'', ''engineering'', ''marketing'', ''finance'', ''hr'', ''employee''})"
  by (auto simp: MOCK_USERS_def split: if_splits)

lemma mock_user_key:
  "(map_of MOCK_USERS u = None) = (u \<notin> fst ` set MOCK_USERS)"
  by (rule map_of_eq_None_iff)

lemma mock_user_role_known:
  "map_of MOCK_USERS u = Some entry \<Longrightarrow>
   \<exists>r. map_of entry ''role'' = Some r \<and> r \<in> fst ` set ROLE_ACCESS_MAPPING \<and>
       dict_get ROLE_ACCESS_MAPPING r [] \<noteq> []"
  unfolding keys_cases
  by (auto simp: MOCK_USERS_def accessible_known split: if_splits)

lemma not_denied_events:
  "dict_get ROLE_ACCESS_MAPPING user_role [] \<noteq> [] \<Longrightarrow>
   snd (get_rag_response chroma_client render llm query user_role) \<noteq> []"
  by (simp add: get_rag_response_def Let_def)

text \<open>
  C10 (authentication). On the mock user table, \<open>get_current_user\<close> raises an
  \<open>HTTPException\<close> with status 401 exactly when the username is not a key of the table or
  the password differs from the one stored for that user; otherwise it returns the user with
  the role stored for that username; in every case the table is left as it was.
\<close>

theorem get_current_user_spec:
  "((\<exists>h. fst (get_current_user MOCK_USERS form_data) = Inl (Http h) \<and> status_code h = 401) \<longleftrightarrow>
      (login_username form_data \<notin> fst ` set MOCK_USERS \<or>
       (\<exists>entry. map_of MOCK_USERS (login_username form_data) = Some entry \<and>
                map_of entry ''password'' \<noteq> Some (login_password form_data)))) \<and>
   (\<not> (login_username form_data \<notin> fst ` set MOCK_USERS \<or>
       (\<exists>entry. map_of MOCK_USERS (login_username form_data) = Some entry \<and>
                map_of entry ''password'' \<noteq> Some (login_password form_data))) \<longrightarrow>
      (\<exists>entry r. map_of MOCK_USERS (login_username form_data) = Some entry \<and>
                map_of entry ''role'' = Some r \<and>
                fst (get_current_user MOCK_USERS form_data)
                  = Inr \<lparr>username = login_username form_data, role = r\<rparr>)) \<and>
   snd (get_current_user MOCK_USERS form_data) = MOCK_USERS"
proof (cases "map_of MOCK_USERS (login_username form_data)")
  case None
  then have "login_username form_data \<notin> fst ` set MOCK_USERS" by (simp add: mock_user_key)
  with None show ?thesis
    by (simp add: get_current_user_def unauthorized_def HTTP_401_UNAUTHORIZED_def)
next
  case (Some entry)
  then have k: "login_username form_data \<in> fst ` set MOCK_USERS"
    using mock_user_key [of "login_username form_data"] by auto
  from mock_user_cases [OF Some] obtain r where
    e: "entry \<noteq> []" and p: "map_of entry ''password'' = Some ''password123''"
    and r: "map_of entry ''role'' = Some r" by blast
  show ?thesis
  proof (cases "map_of entry ''password'' = Some (login_password form_data)")
    case True
    with Some k e r show ?thesis by (simp add: get_current_user_def)
  next
    case False
    with Some k e r show ?thesis
      by (simp add: get_current_user_def unauthorized_def HTTP_401_UNAUTHORIZED_def)
  qed
qed

text \<open>
  C10 for a valid login, a wrong password and an unknown username.
\<close>

theorem get_current_user_spec_witness:
  "fst (get_current_user MOCK_USERS \<lparr>login_username = ''lisa_h'', login_password = ''password123''\<rparr>)
     = Inr \<lparr>username = ''lisa_h'', role = ''hr''\<rparr> \<and>
   (\<exists>h. fst (get_current_user MOCK_USERS \<lparr>login_username = ''lisa_h'', login_password = ''guess''\<rparr>)
          = Inl (Http h) \<and> status_code h = 401) \<and>
   (\<exists>h. fst (get_current_user MOCK_USERS \<lparr>login_username = ''mallory'', login_password = ''password123''\<rparr>)
          = Inl (Http h) \<and> status_code h = 401)"
proof -
  have l: "map_of MOCK_USERS ''lisa_h'' = Some [(''role'', ''hr''), (''password'', ''password123'')]"
    by (simp add: MOCK_USERS_def)
  have kl: "''lisa_h'' \<in> fst ` set MOCK_USERS" and km: "''mallory'' \<notin> fst ` set MOCK_USERS"
    by (simp_all add: MOCK_USERS_def)
  have a: "fst (get_current_user MOCK_USERS \<lparr>login_username = ''lisa_h'', login_password = ''password123''\<rparr>)
     = Inr \<lparr>username = ''lisa_h'', role = ''hr''\<rparr>"
    using get_current_user_spec [of "\<lparr>login_username = ''lisa_h'', login_password = ''password123''\<rparr>"] l kl
    by simp
  have b: "\<exists>h. fst (get_current_user MOCK_USERS \<lparr>login_username = ''lisa_h'', login_password = ''guess''\<rparr>)
          = Inl (Http h) \<and> status_code h = 401"
    using get_current_user_spec [of "\<lparr>login_username = ''lisa_h'', login_password = ''guess''\<rparr>"] l kl
    by simp
  have c: "\<exists>h. fst (get_current_user MOCK_USERS \<lparr>login_username = ''mallory'', login_password = ''password123''\<rparr>)
          = Inl (Http h) \<and> status_code h = 401"
    using get_current_user_spec [of "\<lparr>login_username = ''mallory'', login_password = ''password123''\<rparr>"] km
    by simp
  from a b c show ?thesis by blast
qed

text \<open>
  C9 (an authenticated caller is never denied). Every entry of \<open>MOCK_USERS\<close> stores a
  role that is a key of \<open>ROLE_ACCESS_MAPPING\<close> with a non-empty accessible list; hence for
  every user that \<open>get_current_user\<close> returns, \<open>get_rag_response\<close> does not take the
  denial branch: it runs the search and the model call, and the answer it returns is the
  output of the model on the prompt built from the retrieved context, not the fixed denial
  answer of the access check.
\<close>

theorem authenticated_never_denied:
  "(\<forall>(u, entry) \<in> set MOCK_USERS.
      \<exists>r. map_of entry ''role'' = Some r \<and> r \<in> fst ` set ROLE_ACCESS_MAPPING \<and>
          dict_get ROLE_ACCESS_MAPPING r [] \<noteq> []) \<and>
   (\<forall>user. fst (get_current_user MOCK_USERS form_data) = Inr user \<longrightarrow>
      role user \<in> fst ` set ROLE_ACCESS_MAPPING \<and>
      dict_get ROLE_ACCESS_MAPPING (role user) [] \<noteq> [] \<and>
      snd (get_rag_response chroma_client render llm query (role user)) \<noteq> [] \<and>
      (\<exists>context.
         context = similarity_search chroma_client query 5
                     (In ''role'' (dict_get ROLE_ACCESS_MAPPING (role user) [])) \<and>
         fst (get_rag_response chroma_client render llm query (role user)) =
           llm (prompt (render context) query) \<and>
         snd (get_rag_response chroma_client render llm query (role user)) =
           [VectorSearch query 5 (In ''role'' (dict_get ROLE_ACCESS_MAPPING (role user) [])) context,
            LLMCall (prompt (render context) query)] \<and>
         get_rag_response chroma_client render llm query (role user) =
           (llm (prompt (render context) query),
            [VectorSearch query 5 (In ''role'' (dict_get ROLE_ACCESS_MAPPING (role user) [])) context,
             LLMCall (prompt (render context) query)])))"
proof (intro conjI allI impI)
  show "\<forall>(u, entry) \<in> set MOCK_USERS.
      \<exists>r. map_of entry ''role'' = Some r \<and> r \<in> fst ` set ROLE_ACCESS_MAPPING \<and>
          dict_get ROLE_ACCESS_MAPPING r [] \<noteq> []"
    unfolding keys_cases by (simp add: MOCK_USERS_def accessible_known)
next
  fix user
  assume a: "fst (get_current_user MOCK_USERS form_data) = Inr user"
  then obtain entry where s: "map_of MOCK_USERS (login_username form_data) = Some entry"
    by (cases "map_of MOCK_USERS (login_username form_data)") (auto simp: get_current_user_def)
  from mock_user_role_known [OF s] obtain r where
    r: "map_of entry ''role'' = Some r"
    and rk: "r \<in> fst ` set ROLE_ACCESS_MAPPING \<and> dict_get ROLE_ACCESS_MAPPING r [] \<noteq> []"
    by (elim exE conjE) simp
  have "fst (get_current_user MOCK_USERS form_data) =
          (if entry = [] \<or> map_of entry ''password'' \<noteq> Some (login_password form_data)
           then Inl (Http unauthorized)
           else Inr \<lparr>username = login_username form_data, role = r\<rparr>)"
    by (simp add: get_current_user_def s r)
  with a have "role user = r"
    by (cases "entry = [] \<or> map_of entry ''password'' \<noteq> Some (login_password form_data)") auto
  with rk
  show k: "role user \<in> fst ` set ROLE_ACCESS_MAPPING"
    and n: "dict_get ROLE_ACCESS_MAPPING (role user) [] \<noteq> []" by simp_all
  from n show "snd (get_rag_response chroma_client render llm query (role user)) \<noteq> []"
    by (rule not_denied_events)
  let ?acc = "dict_get ROLE_ACCESS_MAPPING (role user) []"
  let ?ctx = "similarity_search chroma_client query 5 (In ''role'' ?acc)"
  from n have run: "get_rag_response chroma_client render llm query (role user) =
           (llm (prompt (render ?ctx) query),
            [VectorSearch query 5 (In ''role'' ?acc) ?ctx, LLMCall (prompt (render ?ctx) query)])"
    by (simp add: get_rag_response_def Let_def)
  then have "?ctx = ?ctx \<and>
         fst (get_rag_response chroma_client render llm query (role user)) =
           llm (prompt (render ?ctx) query) \<and>
         snd (get_rag_response chroma_client render llm query (role user)) =
           [VectorSearch query 5 (In ''role'' ?acc) ?ctx, LLMCall (prompt (render ?ctx) query)] \<and>
         get_rag_response chroma_client render llm query (role user) =
           (llm (prompt (render ?ctx) query),
            [VectorSearch query 5 (In ''role'' ?acc) ?ctx, LLMCall (prompt (render ?ctx) query)])"
    by simp
  then show "\<exists>context.
         context = similarity_search chroma_client query 5
                     (In ''role'' (dict_get ROLE_ACCESS_MAPPING (role user) [])) \<and>
         fst (get_rag_response chroma_client render llm query (role user)) =
           llm (prompt (render context) query) \<and>
         snd (get_rag_response chroma_client render llm query (role user)) =
           [VectorSearch query 5 (In ''role'' (dict_get ROLE_ACCESS_MAPPING (role user) [])) context,
            LLMCall (prompt (render context) query)] \<and>
         get_rag_response chroma_client render llm query (role user) =
           (llm (prompt (render context) query),
            [VectorSearch query 5 (In ''role'' (dict_get ROLE_ACCESS_MAPPING (role user) [])) context,
             LLMCall (prompt (render context) query)])"
    by (rule exI)
qed

text \<open>
  C9 for the login of \<open>employee_user\<close>: the answer is the model's output on the prompt built
  from the general chunk, and it is not the denial answer.
\<close>

theorem authenticated_never_denied_witness:
  "fst (get_current_user MOCK_USERS \<lparr>login_username = ''employee_user'', login_password = ''password123''\<rparr>)
     = Inr \<lparr>username = ''employee_user'', role = ''employee''\<rparr> \<and>
   dict_get ROLE_ACCESS_MAPPING ''employee'' [] \<noteq> [] \<and>
   snd (get_rag_response demo_store (\<lambda>ds. concat (map page_content ds)) (\<lambda>p. Inr ''hello'')
          ''Office hours?'' ''employee'') \<noteq> [] \<and>
   get_rag_response demo_store (\<lambda>ds. concat (map page_content ds)) (\<lambda>p. Inr ''hello'')
          ''Office hours?'' ''employee'' =
     (Inr ''hello'',
      [VectorSearch ''Office hours?'' 5 (In ''role'' [''general'']) [general_chunk],
       LLMCall (prompt ''Office hours'' ''Office hours?'')]) \<and>
   fst (get_rag_response demo_store (\<lambda>ds. concat (map page_content ds)) (\<lambda>p. Inr ''hello'')
          ''Office hours?'' ''employee'') \<noteq> Inr access_denied"
proof -
  have a: "fst (get_current_user MOCK_USERS \<lparr>login_username = ''employee_user'', login_password = ''password123''\<rparr>)
     = Inr \<lparr>username = ''employee_user'', role = ''employee''\<rparr>"
    by (simp add: get_current_user_def MOCK_USERS_def)
  have acc: "dict_get ROLE_ACCESS_MAPPING ''employee'' [] = [''general'']"
    by (simp add: ROLE_ACCESS_MAPPING_def dict_get_def)
  have ctx: "similarity_search demo_store ''Office hours?'' 5 (In ''role'' [''general''])
      = [general_chunk]"
    by (simp add: similarity_search_def demo_store_def rank_desc_def finance_chunk_def
        hr_chunk_def general_chunk_def)
  have rendered: "page_content general_chunk = ''Office hours''"
    by (simp add: general_chunk_def)
  from authenticated_never_denied [of "\<lparr>login_username = ''employee_user'', login_password = ''password123''\<rparr>"
      demo_store "\<lambda>ds. concat (map page_content ds)" "\<lambda>p. Inr ''hello''" "''Office hours?''"] a
  have n: "dict_get ROLE_ACCESS_MAPPING ''employee'' [] \<noteq> []"
    and e: "snd (get_rag_response demo_store (\<lambda>ds. concat (map page_content ds)) (\<lambda>p. Inr ''hello'')
          ''Office hours?'' ''employee'') \<noteq> []"
    and run: "get_rag_response demo_store (\<lambda>ds. concat (map page_content ds)) (\<lambda>p. Inr ''hello'')
          ''Office hours?'' ''employee'' =
     (Inr ''hello'',
      [VectorSearch ''Office hours?'' 5 (In ''role'' [''general'']) [general_chunk],
       LLMCall (prompt ''Office hours'' ''Office hours?'')])"
    by (simp_all add: acc ctx rendered)
  from run have d: "fst (get_rag_response demo_store (\<lambda>ds. concat (map page_content ds)) (\<lambda>p. Inr ''hello'')
          ''Office hours?'' ''employee'') \<noteq> Inr access_denied"
    by (simp add: access_denied_def)
  from a n e run d show ?thesis by (intro conjI)
qed

section \<open>The corpus walk\<close>

lemma file_units_Inl: "(file_units L dp fn = Inl e) = (load_docs L dp fn = Inl e)"
  by (simp add: file_units_def split: sum.splits option.splits)

lemma file_units_role:
  "file_units L dp fn = Inr us \<Longrightarrow> d \<in> set us \<Longrightarrow> metadata d ''role'' = Some (path_name dp)"
  by (auto simp: file_units_def split: sum.splits option.splits)

lemma process_file_Inr:
  "process_file L dp fn acc = Inr acc' \<Longrightarrow>
   \<exists>us. file_units L dp fn = Inr us \<and> fst acc' = fst acc @ us"
  by (auto simp: process_file_def file_units_def Let_def split: sum.splits option.splits if_splits)

lemma process_file_Inl:
  "(process_file L dp fn acc = Inl e) = (file_units L dp fn = Inl e)"
  by (auto simp: process_file_def file_units_def Let_def split: sum.splits option.splits if_splits)

lemma flatten_walk_simps:
  "flatten_walk [] = []"
  "flatten_walk ((dp, dns, fns) # rest) = map (Pair dp) fns @ flatten_walk rest"
  by (simp_all add: flatten_walk_def)

lemma walk_files_flatten:
  "walk_files data_path root = flatten_walk (case root of None \<Rightarrow> [] | Some d \<Rightarrow> os_walk data_path d)"
  by (simp add: walk_files_def)

lemma path_name_snoc: "path_name (p @ [n]) = n"
  by (simp add: path_name_def)

lemma for_files_append:
  "for_files L (xs @ ys) acc =
     (case for_files L xs acc of Inl e \<Rightarrow> Inl e | Inr acc' \<Rightarrow> for_files L ys acc')"
  by (induction L xs acc rule: for_files.induct) (auto split: sum.splits)

lemma for_filenames_files:
  "for_filenames L dp fns acc = for_files L (map (Pair dp) fns) acc"
  by (induction fns arbitrary: acc) (auto split: sum.splits)

lemma for_walk_files:
  "for_walk L entries acc = for_files L (flatten_walk entries) acc"
  by (induction L entries acc rule: for_walk.induct)
     (auto simp: flatten_walk_simps for_files_append for_filenames_files split: sum.splits)

lemma get_documents_from_path_files:
  "get_documents_from_path L data_path root = for_files L (walk_files data_path root) ([], [])"
  by (simp add: get_documents_from_path_def walk_files_def for_walk_files)

lemma process_file_loaded:
  "process_file L dp fn acc = Inr acc' \<Longrightarrow> \<exists>ds. load_docs L dp fn = Inr ds"
  by (cases "load_docs L dp fn") (auto simp: process_file_def)

lemma for_files_Inr:
  "for_files L fs acc = Inr acc' \<Longrightarrow>
   \<exists>units. list_all2 (\<lambda>(dp, fn) us. file_units L dp fn = Inr us) fs units \<and>
           fst acc' = fst acc @ concat units"
proof (induction L fs acc rule: for_files.induct)
  case (1 L acc)
  then show ?case by simp
next
  case (2 L dirpath filename rest acc)
  from "2.prems" obtain acc1 where
    p: "process_file L dirpath filename acc = Inr acc1" and f: "for_files L rest acc1 = Inr acc'"
    by (auto split: sum.splits)
  from process_file_Inr [OF p] obtain us where
    u: "file_units L dirpath filename = Inr us" and a: "fst acc1 = fst acc @ us" by blast
  from "2.IH" [OF p f] obtain units where
    l: "list_all2 (\<lambda>(dp, fn) us. file_units L dp fn = Inr us) rest units"
    and c: "fst acc' = fst acc1 @ concat units" by blast
  from u l have "list_all2 (\<lambda>(dp, fn) us. file_units L dp fn = Inr us)
                   ((dirpath, filename) # rest) (us # units)" by simp
  moreover from a c have "fst acc' = fst acc @ concat (us # units)" by simp
  ultimately show ?case by blast
qed

lemma for_files_Inl:
  "for_files L fs acc = Inl e \<Longrightarrow>
   \<exists>pre dp fn post. fs = pre @ (dp, fn) # post \<and>
      (\<forall>(a, b) \<in> set pre. \<exists>ds. load_docs L a b = Inr ds) \<and> load_docs L dp fn = Inl e"
proof (induction L fs acc rule: for_files.induct)
  case (1 L acc)
  then show ?case by simp
next
  case (2 L dirpath filename rest acc)
  show ?case
  proof (cases "process_file L dirpath filename acc")
    case (Inl e')
    with "2.prems" have "load_docs L dirpath filename = Inl e"
      by (simp add: process_file_Inl file_units_Inl)
    then have "(dirpath, filename) # rest = [] @ (dirpath, filename) # rest \<and>
      (\<forall>(a, b) \<in> set []. \<exists>ds. load_docs L a b = Inr ds) \<and> load_docs L dirpath filename = Inl e"
      by simp
    then show ?thesis by blast
  next
    case (Inr acc1)
    with "2.prems" have "for_files L rest acc1 = Inl e" by simp
    from "2.IH" [OF Inr this] obtain pre dp fn post where
      r: "rest = pre @ (dp, fn) # post"
         "\<forall>(a, b) \<in> set pre. \<exists>ds. load_docs L a b = Inr ds" "load_docs L dp fn = Inl e"
      by blast
    from process_file_loaded [OF Inr] r
    have "(dirpath, filename) # rest = ((dirpath, filename) # pre) @ (dp, fn) # post \<and>
      (\<forall>(a, b) \<in> set ((dirpath, filename) # pre). \<exists>ds. load_docs L a b = Inr ds) \<and>
      load_docs L dp fn = Inl e" by simp
    then show ?thesis by blast
  qed
qed

lemma for_files_fails:
  "(dp, fn) \<in> set fs \<Longrightarrow> load_docs L dp fn = Inl e \<Longrightarrow> \<exists>e'. for_files L fs acc = Inl e'"
proof (induction L fs acc rule: for_files.induct)
  case (1 L acc)
  then show ?case by simp
next
  case (2 L dirpath filename rest acc)
  show ?case
  proof (cases "process_file L dirpath filename acc")
    case (Inl e')
    then show ?thesis by simp
  next
    case (Inr acc1)
    from process_file_loaded [OF Inr] "2.prems" have "(dp, fn) \<in> set rest" by auto
    from "2.IH" [OF Inr this "2.prems"(2)] Inr show ?thesis by simp
  qed
qed

lemma os_walk_dir_at:
  "(dp, dns, fns) \<in> set (os_walk p t) \<Longrightarrow>
   \<exists>rel d. dp = p @ rel \<and> dir_at t rel d \<and> fns = dir_files d"
proof (induction p t arbitrary: dp dns fns rule: os_walk.induct)
  case (1 dirpath filenames subdirs)
  from "1.prems" consider
    (top) "(dp, dns, fns) = (dirpath, map fst subdirs, filenames)"
    | (sub) n d where "(n, d) \<in> set subdirs" "(dp, dns, fns) \<in> set (os_walk (dirpath @ [n]) d)"
    by auto
  then show ?case
  proof cases
    case top
    then have "dp = dirpath @ [] \<and> dir_at (Directory filenames subdirs) [] (Directory filenames subdirs) \<and>
      fns = dir_files (Directory filenames subdirs)"
      by simp
    then show ?thesis by blast
  next
    case sub
    from "1.IH" [OF sub(1) _ sub(2)] obtain rel d' where
      r: "dp = (dirpath @ [n]) @ rel" "dir_at d rel d'" "fns = dir_files d'"
      by auto
    from sub(1) r(2) have "dir_at (Directory filenames subdirs) (n # rel) d'"
      by auto
    with r have "dp = dirpath @ (n # rel) \<and> dir_at (Directory filenames subdirs) (n # rel) d' \<and>
      fns = dir_files d'" by simp
    then show ?thesis by blast
  qed
qed

lemma walk_files_dir_at:
  assumes "(dp, fn) \<in> set (walk_files p root)"
  shows "\<exists>t rel d. root = Some t \<and> dp = p @ rel \<and> dir_at t rel d \<and> fn \<in> set (dir_files d)"
proof -
  from assms obtain t where t: "root = Some t"
    by (cases root) (auto simp: walk_files_def flatten_walk_def)
  with assms obtain dns fns where "(dp, dns, fns) \<in> set (os_walk p t)" "fn \<in> set fns"
    by (auto simp: walk_files_def flatten_walk_def)
  with os_walk_dir_at [of dp dns fns p t] t show ?thesis by blast
qed

lemmas loader_eval =
  get_documents_from_path_def walk_files_flatten flatten_walk_def process_file_def file_units_def
  load_docs_def endswith_def path_name_def demo_loaders_def Let_def

text \<open>
  C4 as stated fails: with \<open>data/hr/bad.md\<close> unreadable and \<open>data/hr/good.csv\<close> fine,
  the walk ends with the exception of the first file and the unit of the second is not
  produced.
\<close>

theorem parse_failure_counterexample:
  "walk_files [''data''] (Some bad_tree)
     = [([''data'', ''hr''], ''bad.md''), ([''data'', ''hr''], ''good.csv'')] \<and>
   load_docs demo_loaders [''data'', ''hr''] ''bad.md'' = Inl (LoaderError ''invalid utf-8'') \<and>
   file_units demo_loaders [''data'', ''hr''] ''good.csv'' = Inr [good_unit] \<and>
   get_documents_from_path demo_loaders [''data''] (Some bad_tree) = Inl (LoaderError ''invalid utf-8'')"
  by (simp add: loader_eval bad_tree_def good_unit_def)

text \<open>
  C4, amended (per-file failure). A parser exception is not caught: if the parser of some
  file of the walk raises, \<open>get_documents_from_path\<close> ends with the exception of the first
  such file in visiting order and returns no units. If no parser raises, the walk returns
  the units of every file, in visiting order; a file without a loader, or whose loader
  returns nothing, adds nothing and does not end the walk.
\<close>

theorem parse_failure_aborts_walk:
  "(if \<exists>(dirpath, filename) \<in> set (walk_files data_path root).
         \<exists>e. load_docs L dirpath filename = Inl e
    then \<exists>e pre dirpath filename post.
           get_documents_from_path L data_path root = Inl e \<and>
           walk_files data_path root = pre @ (dirpath, filename) # post \<and>
           (\<forall>(a, b) \<in> set pre. \<exists>ds. load_docs L a b = Inr ds) \<and>
           load_docs L dirpath filename = Inl e
    else \<exists>units printed.
           get_documents_from_path L data_path root = Inr (concat units, printed) \<and>
           list_all2 (\<lambda>(dirpath, filename) us. file_units L dirpath filename = Inr us)
                     (walk_files data_path root) units)"
proof (cases "get_documents_from_path L data_path root")
  case (Inl e)
  then have "for_files L (walk_files data_path root) ([], []) = Inl e"
    by (simp add: get_documents_from_path_files)
  from for_files_Inl [OF this] obtain pre dp fn post where
    r: "walk_files data_path root = pre @ (dp, fn) # post"
       "\<forall>(a, b) \<in> set pre. \<exists>ds. load_docs L a b = Inr ds" "load_docs L dp fn = Inl e"
    by blast
  from r(1) r(3) have "\<exists>(dirpath, filename) \<in> set (walk_files data_path root).
         \<exists>e. load_docs L dirpath filename = Inl e" by auto
  moreover from Inl r have "\<exists>e pre dirpath filename post.
           get_documents_from_path L data_path root = Inl e \<and>
           walk_files data_path root = pre @ (dirpath, filename) # post \<and>
           (\<forall>(a, b) \<in> set pre. \<exists>ds. load_docs L a b = Inr ds) \<and>
           load_docs L dirpath filename = Inl e" by blast
  ultimately show ?thesis by simp
next
  case (Inr acc)
  obtain all_docs printed where acc: "acc = (all_docs, printed)" by (cases acc)
  from Inr have run: "for_files L (walk_files data_path root) ([], []) = Inr acc"
    by (simp add: get_documents_from_path_files)
  have none: "\<not> (\<exists>(dp, fn) \<in> set (walk_files data_path root). \<exists>e. load_docs L dp fn = Inl e)"
  proof
    assume "\<exists>(dp, fn) \<in> set (walk_files data_path root). \<exists>e. load_docs L dp fn = Inl e"
    then obtain dp fn e where m: "(dp, fn) \<in> set (walk_files data_path root)"
      and e: "load_docs L dp fn = Inl e" by auto
    from for_files_fails [OF m e, of "([], [])"] run show False by simp
  qed
  from for_files_Inr [OF run] acc obtain units where
    l: "list_all2 (\<lambda>(dp, fn) us. file_units L dp fn = Inr us) (walk_files data_path root) units"
    and c: "all_docs = concat units"
    by auto
  from Inr acc c l have "\<exists>units printed.
           get_documents_from_path L data_path root = Inr (concat units, printed) \<and>
           list_all2 (\<lambda>(dirpath, filename) us. file_units L dirpath filename = Inr us)
                     (walk_files data_path root) units" by blast
  with none show ?thesis by simp
qed

text \<open>
  C4 amended, on the directory with the unreadable file and on the flat directory.
\<close>

theorem parse_failure_aborts_walk_witness:
  "(\<exists>e. get_documents_from_path demo_loaders [''data''] (Some bad_tree) = Inl e) \<and>
   (\<exists>units printed.
      get_documents_from_path demo_loaders [''data''] (Some flat_tree) = Inr (concat units, printed) \<and>
      list_all2 (\<lambda>(dirpath, filename) us. file_units demo_loaders dirpath filename = Inr us)
        [([''data'', ''hr''], ''leave.md''), ([''data'', ''hr''], ''notes.txt''),
         ([''data'', ''general''], ''faq.csv'')] units)"
proof -
  have bad: "\<exists>(dirpath, filename) \<in> set (walk_files [''data''] (Some bad_tree)).
               \<exists>e. load_docs demo_loaders dirpath filename = Inl e"
    by (simp add: loader_eval bad_tree_def)
  have files: "walk_files [''data''] (Some flat_tree) =
      [([''data'', ''hr''], ''leave.md''), ([''data'', ''hr''], ''notes.txt''),
       ([''data'', ''general''], ''faq.csv'')]"
    by (simp add: walk_files_flatten flatten_walk_def flat_tree_def)
  have good: "\<not> (\<exists>(dirpath, filename) \<in> set (walk_files [''data''] (Some flat_tree)).
               \<exists>e. load_docs demo_loaders dirpath filename = Inl e)"
    unfolding files by (simp add: load_docs_def endswith_def demo_loaders_def)
  from parse_failure_aborts_walk [of "[''data'']" "Some bad_tree" demo_loaders] bad
  have a: "\<exists>e. get_documents_from_path demo_loaders [''data''] (Some bad_tree) = Inl e"
    by auto
  from parse_failure_aborts_walk [of "[''data'']" "Some flat_tree" demo_loaders] good
  have b: "\<exists>units printed.
      get_documents_from_path demo_loaders [''data''] (Some flat_tree) = Inr (concat units, printed) \<and>
      list_all2 (\<lambda>(dirpath, filename) us. file_units demo_loaders dirpath filename = Inr us)
        (walk_files [''data''] (Some flat_tree)) units"
    by simp
  from a b show ?thesis unfolding files by blast
qed

text \<open>
  C5 as stated fails: the file \<open>data/finance/reports/q3.csv\<close> lies under the immediate
  subdirectory \<open>finance\<close> of the root, and its unit is tagged \<open>reports\<close>.
\<close>

theorem role_tagging_counterexample:
  "walk_files [''data''] (Some nested_tree) = [([''data'', ''finance'', ''reports''], ''q3.csv'')] \<and>
   get_documents_from_path demo_loaders [''data''] (Some nested_tree)
     = Inr ([reports_unit], [LoadedAndProcessed ''q3.csv'' ''reports'']) \<and>
   metadata reports_unit ''role'' = Some ''reports'' \<and>
   metadata reports_unit ''role'' \<noteq> Some ''finance''"
  by (simp add: loader_eval nested_tree_def reports_unit_def)

text \<open>
  C5, amended (role tagging). When the walk returns, its documents are the units of the
  visited files in order; each visited file is a file of the directory reached from the
  root along some relative path, and every unit of the file carries as \<open>role\<close> the name of
  that directory, the one that directly contains the file; for a file that lies directly
  in an immediate subdirectory of the root this is the name of that subdirectory.
\<close>

theorem role_tagging:
  assumes "get_documents_from_path L data_path root = Inr (all_docs, printed)"
  shows "\<exists>units. all_docs = concat units \<and>
           list_all2 (\<lambda>(dirpath, filename) us.
                        file_units L dirpath filename = Inr us \<and>
                        (\<exists>t rel d. root = Some t \<and> dirpath = data_path @ rel \<and>
                                   dir_at t rel d \<and> filename \<in> set (dir_files d)) \<and>
                        (\<forall>u \<in> set us.
                           metadata u ''role'' = Some (path_name dirpath) \<and>
                           (\<forall>sub. dirpath = data_path @ [sub] \<longrightarrow> metadata u ''role'' = Some sub)))
                     (walk_files data_path root) units"
proof -
  from assms have "for_files L (walk_files data_path root) ([], []) = Inr (all_docs, printed)"
    by (simp add: get_documents_from_path_files)
  from for_files_Inr [OF this] obtain units where
    l: "list_all2 (\<lambda>(dp, fn) us. file_units L dp fn = Inr us) (walk_files data_path root) units"
    and c: "all_docs = concat units"
    by auto
  have "list_all2 (\<lambda>(dirpath, filename) us.
                        file_units L dirpath filename = Inr us \<and>
                        (\<exists>t rel d. root = Some t \<and> dirpath = data_path @ rel \<and>
                                   dir_at t rel d \<and> filename \<in> set (dir_files d)) \<and>
                        (\<forall>u \<in> set us.
                           metadata u ''role'' = Some (path_name dirpath) \<and>
                           (\<forall>sub. dirpath = data_path @ [sub] \<longrightarrow> metadata u ''role'' = Some sub)))
                     (walk_files data_path root) units"
    using l
  proof (rule list.rel_mono_strong)
    fix x us
    assume x: "x \<in> set (walk_files data_path root)"
      and h: "(case x of (dp, fn) \<Rightarrow> \<lambda>us. file_units L dp fn = Inr us) us"
    obtain dp fn where xe: "x = (dp, fn)" by (cases x)
    from h xe have u: "file_units L dp fn = Inr us" by simp
    from x xe walk_files_dir_at [of dp fn data_path root]
    have w: "\<exists>t rel d. root = Some t \<and> dp = data_path @ rel \<and> dir_at t rel d \<and> fn \<in> set (dir_files d)"
      by simp
    have "\<forall>u \<in> set us. metadata u ''role'' = Some (path_name dp) \<and>
            (\<forall>sub. dp = data_path @ [sub] \<longrightarrow> metadata u ''role'' = Some sub)"
      using file_units_role [OF u] by (auto simp: path_name_snoc)
    with u w xe show "(case x of (dirpath, filename) \<Rightarrow> \<lambda>us.
                        file_units L dirpath filename = Inr us \<and>
                        (\<exists>t rel d. root = Some t \<and> dirpath = data_path @ rel \<and>
                                   dir_at t rel d \<and> filename \<in> set (dir_files d)) \<and>
                        (\<forall>u \<in> set us.
                           metadata u ''role'' = Some (path_name dirpath) \<and>
                           (\<forall>sub. dirpath = data_path @ [sub] \<longrightarrow> metadata u ''role'' = Some sub))) us"
      by (simp add: path_name_snoc)
  qed
  with c show ?thesis by blast
qed

text \<open>
  C5 amended, on the flat directory.
\<close>

theorem role_tagging_witness:
  "get_documents_from_path demo_loaders [''data''] (Some flat_tree)
     = Inr ([leave_unit, faq_unit],
            [LoadedAndProcessed ''leave.md'' ''hr'', LoadedAndProcessed ''faq.csv'' ''general'']) \<and>
   (\<exists>units. [leave_unit, faq_unit] = concat units \<and>
      list_all2 (\<lambda>(dirpath, filename) us.
                   file_units demo_loaders dirpath filename = Inr us \<and>
                   (\<exists>t rel d. Some flat_tree = Some t \<and> dirpath = [''data''] @ rel \<and>
                              dir_at t rel d \<and> filename \<in> set (dir_files d)) \<and>
                   (\<forall>u \<in> set us.
                      metadata u ''role'' = Some (path_name dirpath) \<and>
                      (\<forall>sub. dirpath = [''data''] @ [sub] \<longrightarrow> metadata u ''role'' = Some sub)))
                [([''data'', ''hr''], ''leave.md''), ([''data'', ''hr''], ''notes.txt''),
                 ([''data'', ''general''], ''faq.csv'')] units)"
proof -
  have run: "get_documents_from_path demo_loaders [''data''] (Some flat_tree)
     = Inr ([leave_unit, faq_unit],
            [LoadedAndProcessed ''leave.md'' ''hr'', LoadedAndProcessed ''faq.csv'' ''general''])"
    by (simp add: loader_eval flat_tree_def leave_unit_def faq_unit_def)
  have files: "walk_files [''data''] (Some flat_tree) =
      [([''data'', ''hr''], ''leave.md''), ([''data'', ''hr''], ''notes.txt''),
       ([''data'', ''general''], ''faq.csv'')]"
    by (simp add: walk_files_flatten flatten_walk_def flat_tree_def)
  from role_tagging [OF run] have "\<exists>units. [leave_unit, faq_unit] = concat units \<and>
      list_all2 (\<lambda>(dirpath, filename) us.
                   file_units demo_loaders dirpath filename = Inr us \<and>
                   (\<exists>t rel d. Some flat_tree = Some t \<and> dirpath = [''data''] @ rel \<and>
                              dir_at t rel d \<and> filename \<in> set (dir_files d)) \<and>
                   (\<forall>u \<in> set us.
                      metadata u ''role'' = Some (path_name dirpath) \<and>
                      (\<forall>sub. dirpath = [''data''] @ [sub] \<longrightarrow> metadata u ''role'' = Some sub)))
                [([''data'', ''hr''], ''leave.md''), ([''data'', ''hr''], ''notes.txt''),
                 ([''data'', ''general''], ''faq.csv'')] units"
    unfolding files .
  with run show ?thesis by (rule conjI)
qed

section \<open>Ingestion\<close>

text \<open>
  C3 as stated fails: from a state with a persisted index and an empty data directory,
  \<open>ingest_data\<close> finds no documents and returns, and the persist directory is gone.
\<close>

theorem empty_corpus_counterexample:
  "get_documents_from_path demo_loaders (DATA_PATH [''srv'']) (data_dir indexed_state) = Inr ([], []) \<and>
   chroma_dir indexed_state = Some [CHROMA_COLLECTION_NAME \<mapsto> [general_chunk]] \<and>
   fst (ingest_data demo_loaders demo_split [''srv''] indexed_state) = Inr () \<and>
   chroma_dir (fst (snd (ingest_data demo_loaders demo_split [''srv''] indexed_state))) = None \<and>
   chroma_dir (fst (snd (ingest_data demo_loaders demo_split [''srv''] indexed_state)))
     \<noteq> chroma_dir indexed_state"
  by (simp add: ingest_data_def get_documents_from_path_def indexed_state_def DATA_PATH_def)

text \<open>
  C3, amended (empty corpus). If \<open>ingest_data\<close> finds no documents under the data root,
  it reports the condition and returns without creating a collection; the persist directory
  of a previous index has been removed before the corpus is read and is not restored, so no
  index exists afterwards.
\<close>

theorem empty_corpus_removes_index:
  assumes "get_documents_from_path L (DATA_PATH project_root) (data_dir s) = Inr ([], printed)"
  shows "ingest_data L split_text project_root s =
           (Inr (), s\<lparr>chroma_dir := None\<rparr>,
            [Starting] @
            (if chroma_dir s \<noteq> None
             then [RemovingExisting (CHROMA_PERSIST_DIRECTORY project_root)] else []) @
            printed @ [NoDocumentsAborting])"
proof (cases "chroma_dir s")
  case None
  then have "s\<lparr>chroma_dir := None\<rparr> = s" by (cases s) simp
  with None assms show ?thesis by (simp add: ingest_data_def)
next
  case (Some idx)
  with assms show ?thesis by (simp add: ingest_data_def)
qed

text \<open>
  C3 amended, on the state with a persisted index and an empty data directory.
\<close>

theorem empty_corpus_removes_index_witness:
  "ingest_data demo_loaders demo_split [''srv''] indexed_state =
     (Inr (), \<lparr>data_dir = Some (Directory [] []), chroma_dir = None\<rparr>,
      [Starting, RemovingExisting [''srv'', ''chroma_db''], NoDocumentsAborting])"
proof -
  have h: "get_documents_from_path demo_loaders (DATA_PATH [''srv'']) (data_dir indexed_state)
             = Inr ([], [])"
    by (simp add: get_documents_from_path_def indexed_state_def DATA_PATH_def)
  from empty_corpus_removes_index [OF h, of demo_split] show ?thesis
    by (simp add: indexed_state_def CHROMA_PERSIST_DIRECTORY_def)
qed

lemma split_documents_groups:
  "\<exists>groups. split_documents split_text chunk_size chunk_overlap documents = concat groups \<and>
     list_all2 (\<lambda>parent chunks.
                  map page_content chunks = split_text chunk_size chunk_overlap (page_content parent) \<and>
                  (\<forall>c \<in> set chunks. metadata c = metadata parent))
               documents groups"
proof -
  let ?g = "\<lambda>d. map (\<lambda>t. \<lparr>page_content = t, metadata = metadata d\<rparr>)
                    (split_text chunk_size chunk_overlap (page_content d))"
  have "split_documents split_text chunk_size chunk_overlap documents = concat (map ?g documents)"
    by (simp add: split_documents_def)
  moreover have "list_all2 (\<lambda>parent chunks.
                  map page_content chunks = split_text chunk_size chunk_overlap (page_content parent) \<and>
                  (\<forall>c \<in> set chunks. metadata c = metadata parent))
               documents (map ?g documents)"
    by (auto simp: list_all2_map2 list_all2_same comp_def)
  ultimately show ?thesis by blast
qed

text \<open>
  C6 (metadata propagation). The chunks of \<open>split_documents\<close> fall into one group per
  parent document, in order; the texts of a group are the windows of the parent's text, and
  every chunk of the group carries the parent's metadata unchanged, in particular its
  \<open>role\<close> and \<open>source\<close>. When ingestion finds documents, the collection it persists is
  exactly \<open>split_documents\<close> of them with window size 1000 and overlap 100.
\<close>

theorem metadata_propagation:
  "(\<exists>groups. split_documents split_text chunk_size chunk_overlap documents = concat groups \<and>
     list_all2 (\<lambda>parent chunks.
                  map page_content chunks = split_text chunk_size chunk_overlap (page_content parent) \<and>
                  (\<forall>c \<in> set chunks.
                     metadata c = metadata parent \<and>
                     metadata c ''role'' = metadata parent ''role'' \<and>
                     metadata c ''source'' = metadata parent ''source''))
               documents groups) \<and>
   (get_documents_from_path L (DATA_PATH project_root) (data_dir s) = Inr (documents, printed) \<and>
    documents \<noteq> [] \<longrightarrow>
      chroma_dir (fst (snd (ingest_data L split_text project_root s)))
        = Some [CHROMA_COLLECTION_NAME \<mapsto> split_documents split_text 1000 100 documents])"
proof (intro conjI impI)
  from split_documents_groups [of split_text chunk_size chunk_overlap documents]
  obtain groups where c: "split_documents split_text chunk_size chunk_overlap documents = concat groups"
    and l: "list_all2 (\<lambda>parent chunks.
                  map page_content chunks = split_text chunk_size chunk_overlap (page_content parent) \<and>
                  (\<forall>c \<in> set chunks. metadata c = metadata parent))
               documents groups" by blast
  have "list_all2 (\<lambda>parent chunks.
                  map page_content chunks = split_text chunk_size chunk_overlap (page_content parent) \<and>
                  (\<forall>c \<in> set chunks.
                     metadata c = metadata parent \<and>
                     metadata c ''role'' = metadata parent ''role'' \<and>
                     metadata c ''source'' = metadata parent ''source''))
               documents groups"
    using l by (rule list_all2_mono) simp
  with c show "\<exists>groups. split_documents split_text chunk_size chunk_overlap documents = concat groups \<and>
     list_all2 (\<lambda>parent chunks.
                  map page_content chunks = split_text chunk_size chunk_overlap (page_content parent) \<and>
                  (\<forall>c \<in> set chunks.
                     metadata c = metadata parent \<and>
                     metadata c ''role'' = metadata parent ''role'' \<and>
                     metadata c ''source'' = metadata parent ''source''))
               documents groups" by blast
next
  assume "get_documents_from_path L (DATA_PATH project_root) (data_dir s) = Inr (documents, printed) \<and>
    documents \<noteq> []"
  then show "chroma_dir (fst (snd (ingest_data L split_text project_root s)))
        = Some [CHROMA_COLLECTION_NAME \<mapsto> split_documents split_text 1000 100 documents]"
    by (cases "chroma_dir s") (simp_all add: ingest_data_def Let_def)
qed

text \<open>
  C6 on a unit split into two windows, and on the ingestion of the flat directory.
\<close>

theorem metadata_propagation_witness:
  "split_documents demo_split 5 1 [leave_unit] =
     [\<lparr>page_content = ''# Pol'', metadata = metadata leave_unit\<rparr>,
      \<lparr>page_content = ''licy'', metadata = metadata leave_unit\<rparr>] \<and>
   (\<exists>groups. split_documents demo_split 5 1 [leave_unit] = concat groups \<and>
     list_all2 (\<lambda>parent chunks.
                  map page_content chunks = demo_split 5 1 (page_content parent) \<and>
                  (\<forall>c \<in> set chunks.
                     metadata c ''role'' = Some ''hr'' \<and> metadata c ''source'' = Some ''leave.md''))
               [leave_unit] groups) \<and>
   chroma_dir (fst (snd (ingest_data demo_loaders demo_split []
                           \<lparr>data_dir = Some flat_tree, chroma_dir = None\<rparr>)))
     = Some [CHROMA_COLLECTION_NAME \<mapsto> split_documents demo_split 1000 100 [leave_unit, faq_unit]]"
proof -
  have run: "get_documents_from_path demo_loaders (DATA_PATH [])
               (data_dir \<lparr>data_dir = Some flat_tree, chroma_dir = None\<rparr>)
     = Inr ([leave_unit, faq_unit],
            [LoadedAndProcessed ''leave.md'' ''hr'', LoadedAndProcessed ''faq.csv'' ''general'']) \<and>
     [leave_unit, faq_unit] \<noteq> []"
    by (simp add: loader_eval flat_tree_def leave_unit_def faq_unit_def DATA_PATH_def)
  have ev: "split_documents demo_split 5 1 [leave_unit] =
     [\<lparr>page_content = ''# Pol'', metadata = metadata leave_unit\<rparr>,
      \<lparr>page_content = ''licy'', metadata = metadata leave_unit\<rparr>]"
    by (simp add: split_documents_def demo_split_def leave_unit_def)
  have md: "metadata leave_unit ''role'' = Some ''hr''" "metadata leave_unit ''source'' = Some ''leave.md''"
    by (simp_all add: leave_unit_def)
  from metadata_propagation [of demo_split 5 1 "[leave_unit]" demo_loaders "[]"
      "\<lparr>data_dir = Some flat_tree, chroma_dir = None\<rparr>" "[]"]
  obtain groups where c: "split_documents demo_split 5 1 [leave_unit] = concat groups"
    and l: "list_all2 (\<lambda>parent chunks.
                  map page_content chunks = demo_split 5 1 (page_content parent) \<and>
                  (\<forall>c \<in> set chunks.
                     metadata c = metadata parent \<and>
                     metadata c ''role'' = metadata parent ''role'' \<and>
                     metadata c ''source'' = metadata parent ''source''))
               [leave_unit] groups" by blast
  have l': "list_all2 (\<lambda>parent chunks.
                  map page_content chunks = demo_split 5 1 (page_content parent) \<and>
                  (\<forall>c \<in> set chunks.
                     metadata c ''role'' = Some ''hr'' \<and> metadata c ''source'' = Some ''leave.md''))
               [leave_unit] groups"
    using l md by (auto simp: list_all2_Cons1)
  from metadata_propagation [of demo_split 1000 100 "[leave_unit, faq_unit]" demo_loaders "[]"
      "\<lparr>data_dir = Some flat_tree, chroma_dir = None\<rparr>"
      "[LoadedAndProcessed ''leave.md'' ''hr'', LoadedAndProcessed ''faq.csv'' ''general'']"] run
  have i: "chroma_dir (fst (snd (ingest_data demo_loaders demo_split []
                           \<lparr>data_dir = Some flat_tree, chroma_dir = None\<rparr>)))
     = Some [CHROMA_COLLECTION_NAME \<mapsto> split_documents demo_split 1000 100 [leave_unit, faq_unit]]"
    by blast
  from ev c l' i show ?thesis by blast
qed

end
